theory Spec2Isabelle
  imports Complex_Main
begin

section \<open>Spirometry curve derivation: the embedding\<close>

text \<open>
  The source is \<^verbatim>\<open>generate_ukb_3066_demo_dataset.py\<close>. Python exceptions are values of
  \<open>error\<close>; a function that can raise returns \<open>error + 'a\<close> with \<open>Inl\<close> for the raise.
  Python integers are \<open>int\<close>. Floating-point samples are modelled by \<open>real\<close>: the
  properties below are about order, lengths and the arithmetic expressions the code
  evaluates, not about rounding, and NaN and infinities are outside the model.
\<close>

datatype error = AssertionError | ValueError | IndexError

subsection \<open>Python slicing\<close>

text \<open>
  A slice bound \<open>i\<close> of a sequence of length \<open>n\<close>: a negative bound counts from the end
  and is clipped at 0, a non-negative bound is clipped at \<open>n\<close>.
\<close>

definition slice_bound :: "nat \<Rightarrow> int \<Rightarrow> nat" where
  "slice_bound n i = (if i < 0 then nat (int n + i) else min n (nat i))"

text \<open>\<^verbatim>\<open>xs[:k]\<close> and \<^verbatim>\<open>xs[k:]\<close>.\<close>

definition slice_upto :: "'a list \<Rightarrow> int \<Rightarrow> 'a list" where
  "slice_upto xs k = take (slice_bound (length xs) k) xs"

definition slice_from :: "'a list \<Rightarrow> int \<Rightarrow> 'a list" where
  "slice_from xs k = drop (slice_bound (length xs) k) xs"

subsection \<open>Blow records and the trimmer\<close>

text \<open>
  A record dictionary with the keys \<^verbatim>\<open>eid\<close>, \<^verbatim>\<open>visit_id\<close>, \<^verbatim>\<open>blow_order\<close>,
  \<^verbatim>\<open>blow_index\<close>, \<^verbatim>\<open>num_points\<close> and \<^verbatim>\<open>series\<close>.
\<close>

record blow_record =
  eid :: int
  visit_id :: int
  blow_order :: int
  blow_index :: int
  num_points :: int
  series :: "int list"

text \<open>A dataframe built from a list of record dictionaries: one row per record.\<close>

type_synonym dataframe = "blow_record list"

text \<open>
  The body of the \<^verbatim>\<open>for\<close> loop of \<^verbatim>\<open>trim_records\<close>, on one record:
  \<^verbatim>\<open>
    series = record['series']
    num_points = record['num_points']
    num_zeros = len(series) - num_points
    assert {0} == set(series[:num_zeros])
    trimmed_series = series[-(num_points + 1):]
    assert 0 == trimmed_series[0]
    record['series'] = trimmed_series
  \<close>
  The result is the record after the assignment, or the exception raised.
\<close>

definition trim_record :: "blow_record \<Rightarrow> error + blow_record" where
  "trim_record record =
     (let s = series record;
          n = num_points record;
          num_zeros = int (length s) - n
      in if {0} \<noteq> set (slice_upto s num_zeros) then Inl AssertionError
         else (let trimmed_series = slice_from s (- (n + 1))
               in (case trimmed_series of
                     [] \<Rightarrow> Inl IndexError
                   | x # _ \<Rightarrow>
                       if 0 \<noteq> x then Inl AssertionError
                       else Inr (record\<lparr>series := trimmed_series\<rparr>))))"

text \<open>
  The loop itself. The list holds references to dictionaries that the caller owns, and
  the same dictionary can be listed more than once, so the dictionaries live in a store
  indexed by address and the list is a list of addresses. Each pass reads the record
  that its address holds at that moment and assigns the trimmed series to it. The loop
  returns the store as it leaves it: when a pass raises, the dictionaries of the earlier
  passes are already updated.
\<close>

type_synonym address = nat

type_synonym store = "address \<Rightarrow> blow_record"

fun trim_loop :: "address list \<Rightarrow> store \<Rightarrow> store \<times> error option" where
  "trim_loop [] st = (st, None)"
| "trim_loop (a # rest) st =
     (case trim_record (st a) of
        Inl e \<Rightarrow> (st, Some e)
      | Inr record' \<Rightarrow> trim_loop rest (st(a := record')))"

text \<open>
  \<^verbatim>\<open>trim_records(records)\<close>: the first component is the store after the call, the
  second the exception raised or the dataframe returned, \<^verbatim>\<open>pd.DataFrame(records)\<close>,
  whose rows are read from the dictionaries as the loop has left them.
\<close>

definition trim_records :: "address list \<Rightarrow> store \<Rightarrow> store \<times> (error + dataframe)" where
  "trim_records records st =
     (case trim_loop records st of
        (st', Some e) \<Rightarrow> (st', Inl e)
      | (st', None) \<Rightarrow> (st', Inr (map st' records)))"

text \<open>
  The input invariant of a blow record, in the words of the specification:
  \<open>num_points \<ge> 1\<close>, \<open>len(raw_series) \<ge> num_points\<close>, and the first
  \<open>len(raw_series) - num_points\<close> entries are all zero.
\<close>

definition input_invariant :: "blow_record \<Rightarrow> bool" where
  "input_invariant r \<longleftrightarrow>
     1 \<le> num_points r \<and> num_points r \<le> int (length (series r)) \<and>
     list_all (\<lambda>x. x = 0) (take (length (series r) - nat (num_points r)) (series r))"

text \<open>
  The record of the specification's end-to-end example: four real points after three
  zeros of padding.
\<close>

definition example_record :: blow_record where
  "example_record =
     \<lparr>eid = 1, visit_id = 0, blow_order = 0, blow_index = 0, num_points = 4,
      series = [0, 0, 0, 1, 2, 3, 4]\<rparr>"

text \<open>
  The record the docstring promises: all but the last \<open>num_points + 1\<close> entries of the
  series dropped, the other entries kept.
\<close>

definition trimmed :: "blow_record \<Rightarrow> blow_record" where
  "trimmed r = r\<lparr>series := drop (length (series r) - (nat (num_points r) + 1)) (series r)\<rparr>"

subsection \<open>Volume and flow\<close>

text \<open>\<^verbatim>\<open>(series * volume_scale).astype(np.float32)\<close>\<close>

definition compute_volume :: "int list \<Rightarrow> real \<Rightarrow> real list" where
  "compute_volume s volume_scale = map (\<lambda>x. real_of_int x * volume_scale) s"

text \<open>\<^verbatim>\<open>np.diff(a)\<close> of a one-dimensional array: \<^verbatim>\<open>a[1:] - a[:-1]\<close>.\<close>

definition np_diff :: "real list \<Rightarrow> real list" where
  "np_diff a = map2 (\<lambda>x y. x - y) (tl a) (butlast a)"

text \<open>
  \<^verbatim>\<open>np.concatenate(([0.0], np.diff(volume) / time_scale))\<close>. With \<open>time_scale = 0\<close>
  numpy yields infinities or NaN, which the reals do not have: the model is meant for
  \<open>time_scale \<noteq> 0\<close>.
\<close>

definition compute_flow :: "real list \<Rightarrow> real \<Rightarrow> real list" where
  "compute_flow volume time_scale = [0] @ map (\<lambda>d. d / time_scale) (np_diff volume)"

subsection \<open>Arrays and padding\<close>






subsection \<open>Flow by volume\<close>

text \<open>\<^verbatim>\<open>np.maximum.accumulate(volume)\<close>: the running maximum.\<close>

fun maximum_accumulate :: "real list \<Rightarrow> real list" where
  "maximum_accumulate [] = []"
| "maximum_accumulate [x] = [x]"
| "maximum_accumulate (x # y # ys) = x # maximum_accumulate (max x y # ys)"

text \<open>
  \<^verbatim>\<open>np.linspace(start, stop, num)\<close> with the end point included: \<open>num\<close> evenly spaced
  samples, \<^verbatim>\<open>ValueError\<close> for a negative \<open>num\<close>, the single sample \<open>start\<close> for \<open>num = 1\<close>.
\<close>

definition np_linspace :: "real \<Rightarrow> real \<Rightarrow> int \<Rightarrow> error + real list" where
  "np_linspace start stop num =
     (if num < 0 then Inl ValueError
      else if num = 1 then Inr [start]
      else Inr (map (\<lambda>i. start + real i * ((stop - start) / real (nat num - 1)))
                  [0..<nat num]))"

text \<open>
  One query point of \<^verbatim>\<open>np.interp(x, xp, fp, left, right)\<close>, for a non-empty \<open>xp\<close>:
  \<open>left\<close> below \<open>xp[0]\<close>, \<open>right\<close> above \<open>xp[-1]\<close>, and otherwise the segment that
  numpy's search selects, the last index \<open>j\<close> with \<open>xp[j] \<le> x\<close>, where the value is
  \<open>fp[j]\<close> at the last sample or on a sample point and the linear interpolant between
  \<open>j\<close> and \<open>j + 1\<close> elsewhere.
\<close>

definition interp_point :: "real list \<Rightarrow> real list \<Rightarrow> real \<Rightarrow> real \<Rightarrow> real \<Rightarrow> real" where
  "interp_point xp fp left right x =
     (if x < hd xp then left
      else if last xp < x then right
      else (let j = length (takeWhile (\<lambda>p. p \<le> x) xp) - 1
            in if j = length xp - 1 then fp ! j
               else if xp ! j = x then fp ! j
               else (fp ! (j + 1) - fp ! j) / (xp ! (j + 1) - xp ! j) * (x - xp ! j) + fp ! j))"

text \<open>
  \<^verbatim>\<open>np.interp\<close> raises \<^verbatim>\<open>ValueError\<close> for an empty array of sample points and when
  \<open>fp\<close> and \<open>xp\<close> differ in length.
\<close>

definition np_interp ::
  "real list \<Rightarrow> real list \<Rightarrow> real list \<Rightarrow> real \<Rightarrow> real \<Rightarrow> error + real list" where
  "np_interp x xp fp left right =
     (if xp = [] then Inl ValueError
      else if length fp \<noteq> length xp then Inl ValueError
      else Inr (map (interp_point xp fp left right) x))"

text \<open>
  \<^verbatim>\<open>
    monotonic_volume = np.maximum.accumulate(volume)
    assert np.all(np.diff(monotonic_volume) >= 0)
    volume_interp_intervals = np.linspace(start=min_volume, stop=max_volume, num=num_points)
    flow_interp = np.interp(volume_interp_intervals, xp=monotonic_volume, fp=flow, left=0, right=0)
  \<close>
\<close>

definition compute_flow_volume ::
  "real list \<Rightarrow> real list \<Rightarrow> real \<Rightarrow> real \<Rightarrow> int \<Rightarrow> error + real list" where
  "compute_flow_volume flow volume min_volume max_volume n_points =
     (let monotonic_volume = maximum_accumulate volume
      in if \<not> list_all (\<lambda>d. 0 \<le> d) (np_diff monotonic_volume) then Inl AssertionError
         else (case np_linspace min_volume max_volume n_points of
                 Inl e \<Rightarrow> Inl e
               | Inr volume_interp_intervals \<Rightarrow>
                   np_interp volume_interp_intervals monotonic_volume flow 0 0))"

subsection \<open>Forced expiratory flow\<close>

text \<open>
  \<^verbatim>\<open>np.argmax\<close> of a boolean array: the index of the first \<open>True\<close>, index 0 when every
  entry is \<open>False\<close> (the first maximum), \<^verbatim>\<open>ValueError\<close> for an empty array.
\<close>

definition np_argmax :: "bool list \<Rightarrow> error + nat" where
  "np_argmax bs =
     (if bs = [] then Inl ValueError
      else if True \<in> set bs then Inr (length (takeWhile Not bs))
      else Inr 0)"

text \<open>\<^verbatim>\<open>a[i:j]\<close> for indices \<open>0 \<le> i\<close>, \<open>0 \<le> j\<close>, and \<^verbatim>\<open>a.mean()\<close>.\<close>

definition slice :: "'a list \<Rightarrow> nat \<Rightarrow> nat \<Rightarrow> 'a list" where
  "slice xs i j = drop i (take j xs)"

definition np_mean :: "real list \<Rightarrow> real" where
  "np_mean xs = sum_list xs / real (length xs)"

text \<open>
  \<^verbatim>\<open>
    flow_size = len(flow)
    assert flow_size == len(volume), 'Flow and Volume lengths do not match.'
    assert flow_size > 1, 'Flow should have more than one values'
    volumes_over_25 = volume >= (0.25 * volume_max)
    volumes_over_50 = volume >= (0.50 * volume_max)
    volumes_over_75 = volume >= (0.75 * volume_max)
    if not any(volumes_over_75):
      raise ValueError(f'Cannot find FEF75 in volume curve: {volume}')
    idx_25 = np.argmax(volumes_over_25)
    idx_50 = np.argmax(volumes_over_50)
    idx_75 = np.argmax(volumes_over_75)
    assert 0 <= idx_25 <= idx_50 <= idx_75 < flow_size
    fef25, fef50, fef75 = flow[[idx_25, idx_50, idx_75]]
    fef25_75 = flow[idx_25 : (idx_75 + 1)].mean()
    return fef25, fef50, fef75, fef25_75
  \<close>
\<close>

definition compute_fef ::
  "real list \<Rightarrow> real list \<Rightarrow> real \<Rightarrow> error + (real \<times> real \<times> real \<times> real)" where
  "compute_fef flow volume volume_max =
     (let flow_size = length flow
      in if flow_size \<noteq> length volume then Inl AssertionError
         else if \<not> 1 < flow_size then Inl AssertionError
         else (let volumes_over_25 = map (\<lambda>v. 0.25 * volume_max \<le> v) volume;
                   volumes_over_50 = map (\<lambda>v. 0.50 * volume_max \<le> v) volume;
                   volumes_over_75 = map (\<lambda>v. 0.75 * volume_max \<le> v) volume
               in if \<not> (True \<in> set volumes_over_75) then Inl ValueError
                  else (case np_argmax volumes_over_25 of
                          Inl e \<Rightarrow> Inl e
                        | Inr idx_25 \<Rightarrow>
                      (case np_argmax volumes_over_50 of
                          Inl e \<Rightarrow> Inl e
                        | Inr idx_50 \<Rightarrow>
                      (case np_argmax volumes_over_75 of
                          Inl e \<Rightarrow> Inl e
                        | Inr idx_75 \<Rightarrow>
                            if \<not> (idx_25 \<le> idx_50 \<and> idx_50 \<le> idx_75 \<and> idx_75 < flow_size)
                            then Inl AssertionError
                            else Inr (flow ! idx_25, flow ! idx_50, flow ! idx_75,
                                      np_mean (slice flow idx_25 (idx_75 + 1))))))))"

text \<open>
  The index the specification names for a threshold \<open>t\<close>: the smallest \<open>i\<close> with
  \<open>volume[i] \<ge> t\<close>, computed as the number of leading samples below \<open>t\<close>.
\<close>

definition first_crossing :: "real list \<Rightarrow> real \<Rightarrow> nat" where
  "first_crossing volume t = length (takeWhile (\<lambda>v. v < t) volume)"

text \<open>
  The specification's wording of the same index, as a predicate: \<open>i\<close> is an index of
  the volume curve, the sample at \<open>i\<close> reaches \<open>t\<close>, and no earlier sample does.
\<close>

definition is_first_crossing :: "real list \<Rightarrow> real \<Rightarrow> nat \<Rightarrow> bool" where
  "is_first_crossing volume t i \<longleftrightarrow>
     i < length volume \<and> t \<le> volume ! i \<and> (\<forall>j \<in> {..<i}. volume ! j < t)"

text \<open>
  The columns \<^verbatim>\<open>volume\<close> and \<^verbatim>\<open>volume_max\<close> that \<^verbatim>\<open>derive_base_curves\<close> computes
  for one row, \<^verbatim>\<open>compute_volume(series, volume_scale)\<close> and \<^verbatim>\<open>np.max\<close> of it
  (\<^verbatim>\<open>ValueError\<close> on an empty array), with the flow column \<^verbatim>\<open>compute_flow(volume,
  time_scale)\<close>; and the call \<^verbatim>\<open>compute_fef(row['flow'], row['volume'],
  row['volume_max'])\<close> that \<^verbatim>\<open>derive_input_representations\<close> makes on that row.
\<close>

definition np_max :: "real list \<Rightarrow> error + real" where
  "np_max a = (if a = [] then Inl ValueError else Inr (Max (set a)))"

definition row_fef :: "int list \<Rightarrow> real \<Rightarrow> real \<Rightarrow> error + (real \<times> real \<times> real \<times> real)" where
  "row_fef s volume_scale time_scale =
     (let volume = compute_volume s volume_scale
      in (case np_max volume of
            Inl e \<Rightarrow> Inl e
          | Inr volume_max \<Rightarrow> compute_fef (compute_flow volume time_scale) volume volume_max))"

section \<open>Properties\<close>

subsection \<open>The trimmer\<close>

lemma trim_record_Inr:
  assumes "trim_record r = Inr r'"
  shows "r' = r\<lparr>series := slice_from (series r) (- (num_points r + 1))\<rparr>"
  using assms
  by (auto simp: trim_record_def Let_def split: if_splits list.splits)

lemma trim_record_padded:
  assumes n1: "1 \<le> num_points r"
    and len: "num_points r < int (length (series r))"
    and zeros: "\<forall>x \<in> set (take (length (series r) - nat (num_points r)) (series r)). x = 0"
  shows "trim_record r =
           Inr (r\<lparr>series := drop (length (series r) - (nat (num_points r) + 1)) (series r)\<rparr>)"
    and "length (drop (length (series r) - (nat (num_points r) + 1)) (series r)) = nat (num_points r) + 1"
    and "drop (length (series r) - (nat (num_points r) + 1)) (series r) ! 0 = 0"
proof -
  let ?s = "series r"
  let ?k = "length ?s - nat (num_points r)"
  have k: "0 < ?k" "?k \<le> length ?s" using n1 len by auto
  have up: "slice_upto ?s (int (length ?s) - num_points r) = take ?k ?s"
    using n1 len by (simp add: slice_upto_def slice_bound_def nat_diff_distrib min_def)
  have ne: "take ?k ?s \<noteq> []" using k by auto
  have set0: "set (take ?k ?s) = {0}"
  proof
    show "set (take ?k ?s) \<subseteq> {0}" using zeros by auto
    from ne obtain y where "y \<in> set (take ?k ?s)" by (cases "take ?k ?s") auto
    with zeros show "{0} \<subseteq> set (take ?k ?s)" by auto
  qed
  have frm: "slice_from ?s (- (num_points r + 1)) = drop (?k - 1) ?s"
  proof -
    have "nat (int (length ?s) + (- num_points r - 1)) = ?k - 1" using n1 len by arith
    then show ?thesis using n1 len by (simp add: slice_from_def slice_bound_def)
  qed
  have idx: "?k - 1 < length ?s" using k by arith
  have dne: "drop (?k - 1) ?s = ?s ! (?k - 1) # drop (Suc (?k - 1)) ?s"
    using idx by (simp add: Cons_nth_drop_Suc)
  have "?s ! (?k - 1) = take ?k ?s ! (?k - 1)" using k by simp
  moreover have "take ?k ?s ! (?k - 1) \<in> set (take ?k ?s)"
    using k by (intro nth_mem) simp
  ultimately have z: "?s ! (?k - 1) = 0" using zeros by auto
  have eq: "?k - 1 = length ?s - (nat (num_points r) + 1)" by arith
  show "trim_record r = Inr (r\<lparr>series := drop (length ?s - (nat (num_points r) + 1)) ?s\<rparr>)"
    unfolding trim_record_def Let_def up set0 frm
    using dne z eq by simp
  show "length (drop (length ?s - (nat (num_points r) + 1)) ?s) = nat (num_points r) + 1"
    using n1 len by auto
  show "drop (length ?s - (nat (num_points r) + 1)) ?s ! 0 = 0"
    using dne z eq by simp
qed

lemma trim_record_unpadded:
  assumes "num_points r = int (length (series r))"
  shows "trim_record r = Inl AssertionError"
  using assms by (simp add: trim_record_def slice_upto_def slice_bound_def)

lemma trim_record_trimmed:
  assumes "input_invariant r" and "num_points r < int (length (series r))"
  shows "trim_record r = Inr (trimmed r)"
    and "int (length (series (trimmed r))) = num_points r + 1"
    and "series (trimmed r) ! 0 = 0"
proof -
  have n1: "1 \<le> num_points r"
    and z: "\<forall>x \<in> set (take (length (series r) - nat (num_points r)) (series r)). x = 0"
    using assms(1) by (simp_all add: input_invariant_def list_all_iff)
  show "trim_record r = Inr (trimmed r)"
    unfolding trimmed_def by (rule trim_record_padded(1) [OF n1 assms(2) z])
  show "int (length (series (trimmed r))) = num_points r + 1"
    using trim_record_padded(2) [OF n1 assms(2) z] n1 by (simp add: trimmed_def)
  show "series (trimmed r) ! 0 = 0"
    using trim_record_padded(3) [OF n1 assms(2) z] by (simp add: trimmed_def)
qed

text \<open>A trimmed record is itself padded, by its one leading zero, and trims to itself.\<close>

lemma trimmed_padded:
  assumes "input_invariant r" and "num_points r < int (length (series r))"
  shows "input_invariant (trimmed r)"
    and "num_points (trimmed r) < int (length (series (trimmed r)))"
    and "trimmed (trimmed r) = trimmed r"
proof -
  have n1: "1 \<le> num_points r" using assms(1) by (simp add: input_invariant_def)
  have n: "num_points (trimmed r) = num_points r" by (simp add: trimmed_def)
  note l = trim_record_trimmed(2) [OF assms] and z = trim_record_trimmed(3) [OF assms]
  show "num_points (trimmed r) < int (length (series (trimmed r)))" using l n by simp
  have len: "length (series (trimmed r)) = nat (num_points r) + 1" using l n1 by arith
  then have one: "length (series (trimmed r)) - nat (num_points (trimmed r)) = 1"
    using n by simp
  from len obtain x xs where c: "series (trimmed r) = x # xs"
    by (cases "series (trimmed r)") auto
  with z have "x = 0" by simp
  with c have "take 1 (series (trimmed r)) = [0]" by simp
  then show "input_invariant (trimmed r)"
    using n1 n l unfolding input_invariant_def one by simp
  have "length (series (trimmed r)) - (nat (num_points (trimmed r)) + 1) = 0"
    using len n by simp
  then show "trimmed (trimmed r) = trimmed r"
    by (simp add: trimmed_def [of "trimmed r"])
qed

text \<open>
  The loop on a store that started as \<open>st0\<close> and in which some padded records have
  already been trimmed: it trims every padded record it reaches, once or again.
\<close>

lemma trim_loop_padded:
  assumes "\<forall>a \<in> set records.
             input_invariant (st0 a) \<and> num_points (st0 a) < int (length (series (st0 a)))"
    and "\<forall>a. st a = st0 a \<or> st a = trimmed (st0 a)"
  shows "trim_loop records st =
           (\<lambda>a. if a \<in> set records then trimmed (st0 a) else st a, None)"
  using assms
proof (induction records arbitrary: st)
  case Nil
  then show ?case by simp
next
  case (Cons a records)
  from Cons.prems(1) have inv: "input_invariant (st0 a)"
    and lt: "num_points (st0 a) < int (length (series (st0 a)))" by simp_all
  have t: "trim_record (st a) = Inr (trimmed (st0 a))"
  proof (cases "st a = st0 a")
    case True
    then show ?thesis using trim_record_trimmed(1) [OF inv lt] by simp
  next
    case False
    with Cons.prems(2) have e: "st a = trimmed (st0 a)" by blast
    show ?thesis
      unfolding e
      using trim_record_trimmed(1) [OF trimmed_padded(1,2) [OF inv lt]]
        trimmed_padded(3) [OF inv lt]
      by simp
  qed
  let ?st = "st(a := trimmed (st0 a))"
  have "\<forall>b. ?st b = st0 b \<or> ?st b = trimmed (st0 b)" using Cons.prems(2) by simp
  moreover from Cons.prems(1) have "\<forall>b \<in> set records.
      input_invariant (st0 b) \<and> num_points (st0 b) < int (length (series (st0 b)))"
    by simp
  ultimately have "trim_loop records ?st =
      (\<lambda>b. if b \<in> set records then trimmed (st0 b) else ?st b, None)"
    by (rule Cons.IH [rotated])
  then show ?case using t by (auto simp: fun_eq_iff)
qed

text \<open>
  The loop on such a store when a record without padding is listed: the first one it
  reaches raises.
\<close>

lemma trim_loop_unpadded:
  assumes "\<forall>a \<in> set records. input_invariant (st0 a)"
    and "\<exists>a \<in> set records. num_points (st0 a) = int (length (series (st0 a)))"
    and "\<forall>a. st a = st0 a \<or>
           (num_points (st0 a) < int (length (series (st0 a))) \<and> st a = trimmed (st0 a))"
  shows "snd (trim_loop records st) = Some AssertionError"
  using assms
proof (induction records arbitrary: st)
  case Nil
  then show ?case by simp
next
  case (Cons a records)
  from Cons.prems(1) have inv: "input_invariant (st0 a)" by simp
  show ?case
  proof (cases "num_points (st0 a) < int (length (series (st0 a)))")
    case lt: True
    have t: "trim_record (st a) = Inr (trimmed (st0 a))"
    proof (cases "st a = st0 a")
      case True
      then show ?thesis using trim_record_trimmed(1) [OF inv lt] by simp
    next
      case False
      with Cons.prems(3) have e: "st a = trimmed (st0 a)" by blast
      show ?thesis
        unfolding e
        using trim_record_trimmed(1) [OF trimmed_padded(1,2) [OF inv lt]]
          trimmed_padded(3) [OF inv lt]
        by simp
    qed
    let ?st = "st(a := trimmed (st0 a))"
    have 1: "\<forall>b \<in> set records. input_invariant (st0 b)" using Cons.prems(1) by simp
    have 2: "\<exists>b \<in> set records. num_points (st0 b) = int (length (series (st0 b)))"
      using Cons.prems(2) lt by auto
    have 3: "\<forall>b. ?st b = st0 b \<or>
        (num_points (st0 b) < int (length (series (st0 b))) \<and> ?st b = trimmed (st0 b))"
      using Cons.prems(3) lt by simp
    have "snd (trim_loop records ?st) = Some AssertionError"
      using 1 2 3 by (rule Cons.IH)
    then show ?thesis using t by simp
  next
    case False
    with inv have eq: "num_points (st0 a) = int (length (series (st0 a)))"
      by (simp add: input_invariant_def)
    from False Cons.prems(3) have "st a = st0 a" by blast
    with eq have "trim_record (st a) = Inl AssertionError"
      by (simp add: trim_record_unpadded)
    then show ?thesis by simp
  qed
qed

lemmas trim_eval = trim_records_def trim_record_def slice_upto_def slice_from_def slice_bound_def

text \<open>
  C1, as amended. Let every listed blow record satisfy the input invariant. If every one
  of them carries at least one padding zero (\<open>len(raw_series) > num_points\<close>),
  \<open>trim_records\<close> succeeds, and each row of the dataframe holds the last
  \<open>num_points + 1\<close> entries of its record's series, the first of them 0. If one of them
  has an empty zero prefix (\<open>len(raw_series) = num_points\<close>), \<open>trim_records\<close> raises
  \<open>AssertionError\<close>.
\<close>

theorem trim_records_invariant:
  assumes "\<forall>a \<in> set records. input_invariant (st a)"
  shows "((\<forall>a \<in> set records. num_points (st a) < int (length (series (st a)))) \<longrightarrow>
            (\<exists>df. snd (trim_records records st) = Inr df \<and> length df = length records \<and>
               (\<forall>i < length records.
                  int (length (series (df ! i))) = num_points (st (records ! i)) + 1 \<and>
                  series (df ! i) ! 0 = 0 \<and>
                  series (df ! i) =
                    drop (length (series (st (records ! i))) -
                            (nat (num_points (st (records ! i))) + 1))
                      (series (st (records ! i)))))) \<and>
         ((\<exists>a \<in> set records. num_points (st a) = int (length (series (st a)))) \<longrightarrow>
            snd (trim_records records st) = Inl AssertionError)"
proof (intro conjI impI)
  assume pad: "\<forall>a \<in> set records. num_points (st a) < int (length (series (st a)))"
  with assms have p: "\<forall>a \<in> set records.
      input_invariant (st a) \<and> num_points (st a) < int (length (series (st a)))"
    by blast
  have "trim_loop records st =
      (\<lambda>a. if a \<in> set records then trimmed (st a) else st a, None)"
    using p by (rule trim_loop_padded) simp
  then have df: "snd (trim_records records st) = Inr (map (\<lambda>a. trimmed (st a)) records)"
    by (simp add: trim_records_def)
  have "int (length (series (map (\<lambda>a. trimmed (st a)) records ! i))) =
          num_points (st (records ! i)) + 1 \<and>
        series (map (\<lambda>a. trimmed (st a)) records ! i) ! 0 = 0 \<and>
        series (map (\<lambda>a. trimmed (st a)) records ! i) =
          drop (length (series (st (records ! i))) - (nat (num_points (st (records ! i))) + 1))
            (series (st (records ! i)))" if i: "i < length records" for i
  proof -
    have "records ! i \<in> set records" using i by simp
    with p have inv: "input_invariant (st (records ! i))"
      and lt: "num_points (st (records ! i)) < int (length (series (st (records ! i))))"
      by blast+
    show ?thesis
      using i trim_record_trimmed(2,3) [OF inv lt] by (simp add: trimmed_def)
  qed
  then have rows: "\<forall>i < length records.
      int (length (series (map (\<lambda>a. trimmed (st a)) records ! i))) =
        num_points (st (records ! i)) + 1 \<and>
      series (map (\<lambda>a. trimmed (st a)) records ! i) ! 0 = 0 \<and>
      series (map (\<lambda>a. trimmed (st a)) records ! i) =
        drop (length (series (st (records ! i))) - (nat (num_points (st (records ! i))) + 1))
          (series (st (records ! i)))"
    by blast
  have len: "length (map (\<lambda>a. trimmed (st a)) records) = length records" by simp
  show "\<exists>df. snd (trim_records records st) = Inr df \<and> length df = length records \<and>
      (\<forall>i < length records.
         int (length (series (df ! i))) = num_points (st (records ! i)) + 1 \<and>
         series (df ! i) ! 0 = 0 \<and>
         series (df ! i) =
           drop (length (series (st (records ! i))) - (nat (num_points (st (records ! i))) + 1))
             (series (st (records ! i))))"
    by (intro exI [of _ "map (\<lambda>a. trimmed (st a)) records"] conjI df len rows)
next
  assume "\<exists>a \<in> set records. num_points (st a) = int (length (series (st a)))"
  with assms have "snd (trim_loop records st) = Some AssertionError"
    by (rule trim_loop_unpadded) simp
  then show "snd (trim_records records st) = Inl AssertionError"
    by (auto simp: trim_records_def split: prod.splits option.splits)
qed

text \<open>
  The example record, whose series \<open>[0,0,0,1,2,3,4]\<close> trims to \<open>[0,1,2,3,4]\<close>, and the
  same record with its three padding zeros taken away, which is refused.
\<close>

theorem trim_records_invariant_witness:
  "input_invariant example_record \<and>
   num_points example_record < int (length (series example_record)) \<and>
   (\<exists>df. snd (trim_records [0] (\<lambda>a. example_record)) = Inr df \<and> length df = 1 \<and>
      int (length (series (df ! 0))) = 5 \<and> series (df ! 0) ! 0 = 0 \<and>
      series (df ! 0) = [0, 1, 2, 3, 4]) \<and>
   input_invariant (example_record\<lparr>series := [1, 2, 3, 4]\<rparr>) \<and>
   num_points (example_record\<lparr>series := [1, 2, 3, 4]\<rparr>) =
     int (length (series (example_record\<lparr>series := [1, 2, 3, 4]\<rparr>))) \<and>
   snd (trim_records [0] (\<lambda>a. example_record\<lparr>series := [1, 2, 3, 4]\<rparr>)) = Inl AssertionError"
proof -
  let ?st = "\<lambda>a :: address. example_record"
  let ?un = "\<lambda>a :: address. example_record\<lparr>series := [1, 2, 3, 4]\<rparr>"
  have inv: "input_invariant example_record"
    and lt: "num_points example_record < int (length (series example_record))"
    and inv': "input_invariant (example_record\<lparr>series := [1, 2, 3, 4]\<rparr>)"
    and eq: "num_points (example_record\<lparr>series := [1, 2, 3, 4]\<rparr>) =
       int (length (series (example_record\<lparr>series := [1, 2, 3, 4]\<rparr>)))"
    by (simp_all add: example_record_def input_invariant_def)
  have h: "\<forall>a \<in> set [0]. input_invariant (?st a)" using inv by simp
  have p: "\<forall>a \<in> set [0]. num_points (?st a) < int (length (series (?st a)))"
    using lt by simp
  from trim_records_invariant [OF h] p obtain df where
    df: "snd (trim_records [0] ?st) = Inr df" "length df = length [0 :: address]"
      "\<forall>i < length [0 :: address].
          int (length (series (df ! i))) = num_points (?st ([0] ! i)) + 1 \<and>
          series (df ! i) ! 0 = 0 \<and>
          series (df ! i) =
            drop (length (series (?st ([0] ! i))) - (nat (num_points (?st ([0] ! i))) + 1))
              (series (?st ([0] ! i)))"
    by blast
  from df(3) have "int (length (series (df ! 0))) = 5 \<and> series (df ! 0) ! 0 = 0 \<and>
      series (df ! 0) = [0, 1, 2, 3, 4]"
    by (simp add: example_record_def)
  with df(1,2) have ex: "\<exists>df. snd (trim_records [0] ?st) = Inr df \<and> length df = 1 \<and>
      int (length (series (df ! 0))) = 5 \<and> series (df ! 0) ! 0 = 0 \<and>
      series (df ! 0) = [0, 1, 2, 3, 4]"
    by auto
  have h': "\<forall>a \<in> set [0]. input_invariant (?un a)" using inv' by simp
  have u: "\<exists>a \<in> set [0]. num_points (?un a) = int (length (series (?un a)))"
    using eq by simp
  from trim_records_invariant [OF h'] u
  have fail: "snd (trim_records [0] ?un) = Inl AssertionError" by blast
  show ?thesis by (intro conjI inv lt ex inv' eq fail)
qed

text \<open>
  C1 as stated fails on a record without padding: \<open>num_points = 2\<close> and series
  \<open>[3, 7]\<close> satisfy the input invariant with an empty zero prefix, and the first
  assertion fails, since the set of an empty prefix is not \<open>{0}\<close>.
\<close>

theorem trim_records_unpadded_counterexample:
  "input_invariant \<lparr>eid = 1, visit_id = 0, blow_order = 0, blow_index = 0, num_points = 2,
                    series = [3, 7]\<rparr> \<and>
   snd (trim_records [0]
          (\<lambda>a. \<lparr>eid = 1, visit_id = 0, blow_order = 0, blow_index = 0, num_points = 2,
                 series = [3, 7]\<rparr>)) = Inl AssertionError"
  by (simp add: input_invariant_def trim_eval)

text \<open>
  C2. The trimmer is to have no side effect: every input record, and its \<open>series\<close>
  entry in particular, is to be after the call what it was before. The code does not
  keep to that. On the example record, listed once at address 0, the dictionary holds
  the trimmed series \<open>[0,1,2,3,4]\<close> after the call, not the series \<open>[0,0,0,1,2,3,4]\<close> it
  was given, while the later stages \<open>derive_base_curves\<close> and
  \<open>derive_input_representations\<close> copy their input before they change it.
\<close>

theorem trim_records_overwrites_input:
  "fst (trim_records [0] (\<lambda>a. example_record)) 0 = example_record\<lparr>series := [0, 1, 2, 3, 4]\<rparr> \<and>
   fst (trim_records [0] (\<lambda>a. example_record)) 0 \<noteq> example_record \<and>
   snd (trim_records [0] (\<lambda>a. example_record)) = Inr [example_record\<lparr>series := [0, 1, 2, 3, 4]\<rparr>]"
  by (simp add: example_record_def trim_eval)

text \<open>
  The update is visible to a second pass over the same dictionary. With
  \<open>num_points = -2\<close>, outside the input invariant, every pass drops one sample: the
  series \<open>[0,0,0]\<close> listed twice ends as \<open>[0]\<close> in both rows, and \<open>[0,0]\<close> listed twice
  raises \<open>IndexError\<close> in the second pass.
\<close>

lemma trim_records_same_record_twice:
  "snd (trim_records [0, 0] (\<lambda>a. example_record\<lparr>num_points := - 2, series := [0, 0, 0]\<rparr>)) =
     Inr [example_record\<lparr>num_points := - 2, series := [0]\<rparr>,
          example_record\<lparr>num_points := - 2, series := [0]\<rparr>]"
  "trim_records [0, 0] (\<lambda>a. example_record\<lparr>num_points := - 2, series := [0, 0]\<rparr>) =
     ((\<lambda>a. example_record\<lparr>num_points := - 2, series := [0, 0]\<rparr>)
        (0 := example_record\<lparr>num_points := - 2, series := [0]\<rparr>), Inl IndexError)"
  by (simp_all add: example_record_def trim_eval)

subsection \<open>Padding\<close>





subsection \<open>Flow\<close>

lemma length_np_diff: "length (np_diff a) = length a - 1"
  by (simp add: np_diff_def)

lemma nth_np_diff: "Suc i < length a \<Longrightarrow> np_diff a ! i = a ! Suc i - a ! i"
  by (simp add: np_diff_def nth_tl nth_butlast)

text \<open>
  C8. For every volume array of length at least 1 and every non-zero time scale,
  \<open>compute_flow\<close> returns an array of the same length with \<open>flow[0] = 0\<close> and
  \<open>flow[i] = (volume[i] - volume[i-1]) / time_scale\<close> for every index \<open>i \<ge> 1\<close>.
\<close>

theorem compute_flow_derivative:
  assumes "volume \<noteq> []" and "time_scale \<noteq> 0"
  shows "length (compute_flow volume time_scale) = length volume \<and>
         compute_flow volume time_scale ! 0 = 0 \<and>
         (\<forall>i. 1 \<le> i \<and> i < length volume \<longrightarrow>
            compute_flow volume time_scale ! i = (volume ! i - volume ! (i - 1)) / time_scale)"
proof -
  have len: "length (compute_flow volume time_scale) = length volume"
    using assms(1) by (cases volume) (simp_all add: compute_flow_def length_np_diff)
  have "compute_flow volume time_scale ! i = (volume ! i - volume ! (i - 1)) / time_scale"
    if "1 \<le> i" "i < length volume" for i
  proof -
    from that(1) obtain k where k: "i = Suc k" by (cases i) auto
    then have "compute_flow volume time_scale ! i = np_diff volume ! k / time_scale"
      using that(2) by (simp add: compute_flow_def length_np_diff)
    also have "np_diff volume ! k = volume ! Suc k - volume ! k"
      using that(2) k by (simp add: nth_np_diff)
    finally show ?thesis using k by simp
  qed
  moreover have "compute_flow volume time_scale ! 0 = 0" by (simp add: compute_flow_def)
  ultimately show ?thesis using len by blast
qed

text \<open>Volume \<open>[0,1,3,6]\<close> sampled every half second: the flow at index 2 is 4.\<close>

theorem compute_flow_derivative_witness:
  "[0, 1, 3, 6 :: real] \<noteq> [] \<and> (1 / 2 :: real) \<noteq> 0 \<and>
   length (compute_flow [0, 1, 3, 6] (1 / 2)) = 4 \<and>
   compute_flow [0, 1, 3, 6] (1 / 2) ! 0 = 0 \<and>
   compute_flow [0, 1, 3, 6] (1 / 2) ! 2 = 4"
proof -
  have h1: "[0, 1, 3, 6 :: real] \<noteq> []" and h2: "(1 / 2 :: real) \<noteq> 0" by simp_all
  from compute_flow_derivative [OF h1 h2]
  have "length (compute_flow [0, 1, 3, 6] (1 / 2)) = length [0, 1, 3, 6 :: real]"
    and "compute_flow [0, 1, 3, 6] (1 / 2) ! 0 = 0"
    and "1 \<le> (2::nat) \<and> 2 < length [0, 1, 3, 6 :: real] \<longrightarrow>
         compute_flow [0, 1, 3, 6] (1 / 2) ! 2 = ([0, 1, 3, 6] ! 2 - [0, 1, 3, 6] ! (2 - 1)) / (1 / 2)"
    by blast+
  then show ?thesis by simp
qed

subsection \<open>Flow by volume\<close>

lemma np_diff_Cons2: "np_diff (x # y # ys) = (y - x) # np_diff (y # ys)"
  by (simp add: np_diff_def)

lemma np_diff_single: "np_diff [x] = []"
  by (simp add: np_diff_def)

lemma maximum_accumulate_Cons: "\<exists>zs. maximum_accumulate (x # xs) = x # zs"
  by (cases xs) simp_all

lemma length_maximum_accumulate: "length (maximum_accumulate volume) = length volume"
  by (induction volume rule: maximum_accumulate.induct) simp_all

lemma maximum_accumulate_steps:
  "list_all (\<lambda>d. 0 \<le> d) (np_diff (maximum_accumulate volume))"
proof (induction volume rule: maximum_accumulate.induct)
  case 1
  show ?case by (simp add: np_diff_def)
next
  case (2 x)
  show ?case by (simp add: np_diff_single)
next
  case (3 x y ys)
  obtain zs where zs: "maximum_accumulate (max x y # ys) = max x y # zs"
    using maximum_accumulate_Cons by blast
  with 3 show ?case by (simp add: np_diff_Cons2)
qed

lemma np_linspace_error: "np_linspace start stop num = Inl e \<Longrightarrow> e = ValueError"
  by (auto simp: np_linspace_def split: if_splits)

lemma np_interp_error: "np_interp x xp fp l r = Inl e \<Longrightarrow> e = ValueError"
  by (auto simp: np_interp_def split: if_splits)

text \<open>
  C10. For every real-valued volume array the running maximum is non-decreasing: every
  successive difference of \<open>np.maximum.accumulate(volume)\<close> is at least 0, so the
  assertion of \<open>compute_flow_volume\<close> passes and the function never raises
  \<open>AssertionError\<close>.
\<close>

theorem prefix_max_assertion_holds:
  "list_all (\<lambda>d. 0 \<le> d) (np_diff (maximum_accumulate volume)) \<and>
   compute_flow_volume flow volume min_volume max_volume n_points \<noteq> Inl AssertionError"
proof
  show steps: "list_all (\<lambda>d. 0 \<le> d) (np_diff (maximum_accumulate volume))"
    by (rule maximum_accumulate_steps)
  show "compute_flow_volume flow volume min_volume max_volume n_points \<noteq> Inl AssertionError"
  proof
    assume a: "compute_flow_volume flow volume min_volume max_volume n_points = Inl AssertionError"
    show False
    proof (cases "np_linspace min_volume max_volume n_points")
      case (Inl e)
      with a steps np_linspace_error [OF Inl] show False
        by (simp add: compute_flow_volume_def)
    next
      case (Inr q)
      with a steps have "np_interp q (maximum_accumulate volume) flow 0 0 = Inl AssertionError"
        by (simp add: compute_flow_volume_def)
      from np_interp_error [OF this] show False by simp
    qed
  qed
qed

text \<open>A volume curve with two regressions: \<open>[1,3,2,5,4]\<close> accumulates to \<open>[1,3,3,5,5]\<close>.\<close>

theorem prefix_max_assertion_holds_witness:
  "maximum_accumulate [1, 3, 2, 5, 4] = [1, 3, 3, 5, 5] \<and>
   list_all (\<lambda>d. 0 \<le> d) (np_diff [1, 3, 3, 5, 5]) \<and>
   compute_flow_volume [0, 2, -1, 3, -1] [1, 3, 2, 5, 4] 0 6 4 \<noteq> Inl AssertionError"
proof -
  have m: "maximum_accumulate [1, 3, 2, 5, 4] = [1, 3, 3, 5, 5]" by simp
  from prefix_max_assertion_holds [of "[1, 3, 2, 5, 4]" "[0, 2, -1, 3, -1]" 0 6 4] m
  show ?thesis by simp
qed

lemma length_np_linspace: "np_linspace start stop num = Inr q \<Longrightarrow> int (length q) = num"
  by (auto simp: np_linspace_def split: if_splits)

lemma interp_point_outside:
  assumes "xp \<noteq> []" and "x < Min (set xp) \<or> Max (set xp) < x"
  shows "interp_point xp fp 0 0 x = 0"
proof -
  have "Min (set xp) \<le> hd xp" using assms(1) by simp
  moreover have "last xp \<le> Max (set xp)" using assms(1) by simp
  ultimately have "x < hd xp \<or> last xp < x" using assms(2) by auto
  then show ?thesis by (auto simp: interp_point_def)
qed

text \<open>
  C6. Whenever \<open>compute_flow_volume\<close> accepts its input, for the range
  \<open>[min_volume, max_volume]\<close> and \<open>N\<close> output points, the output has exactly \<open>N\<close>
  values, one per query point of \<open>np.linspace\<close>, and every query point strictly below
  the minimum of the running-maximum volume curve or strictly above its maximum is
  assigned the flow value 0.
\<close>

theorem compute_flow_volume_boundary:
  assumes "compute_flow_volume flow volume min_volume max_volume n_points = Inr out"
  shows "int (length out) = n_points \<and>
         (\<exists>q. np_linspace min_volume max_volume n_points = Inr q \<and> length q = length out \<and>
            (\<forall>i < length out.
               q ! i < Min (set (maximum_accumulate volume)) \<or>
               Max (set (maximum_accumulate volume)) < q ! i \<longrightarrow> out ! i = 0))"
proof -
  let ?m = "maximum_accumulate volume"
  from assms obtain q where q: "np_linspace min_volume max_volume n_points = Inr q"
    and i: "np_interp q ?m flow 0 0 = Inr out"
    by (auto simp: compute_flow_volume_def Let_def split: if_splits sum.splits)
  from i have ne: "?m \<noteq> []" and out: "out = map (interp_point ?m flow 0 0) q"
    by (auto simp: np_interp_def split: if_splits)
  have len: "length q = length out" using out by simp
  have "out ! i = 0"
    if "i < length out" "q ! i < Min (set ?m) \<or> Max (set ?m) < q ! i" for i
  proof -
    have "out ! i = interp_point ?m flow 0 0 (q ! i)" using that(1) out by simp
    also have "\<dots> = 0" using ne that(2) by (rule interp_point_outside)
    finally show ?thesis .
  qed
  with q len length_np_linspace [OF q] show ?thesis by auto
qed

text \<open>
  Volumes \<open>[1,2,3]\<close> queried at \<open>0,1,2,3,4\<close>: the first and the last query point lie
  outside the observed range and get 0.
\<close>

theorem compute_flow_volume_boundary_witness:
  "compute_flow_volume [5, 6, 7] [1, 2, 3] 0 4 5 = Inr [0, 5, 6, 7, 0] \<and>
   int (length [0, 5, 6, 7, 0 :: real]) = 5 \<and>
   (\<exists>q. np_linspace 0 4 5 = Inr q \<and> length q = length [0, 5, 6, 7, 0 :: real] \<and>
      (\<forall>i < length [0, 5, 6, 7, 0 :: real].
         q ! i < Min (set (maximum_accumulate [1, 2, 3])) \<or>
         Max (set (maximum_accumulate [1, 2, 3])) < q ! i \<longrightarrow> [0, 5, 6, 7, 0 :: real] ! i = 0)) \<and>
   np_linspace 0 4 5 = Inr [0, 1, 2, 3, 4] \<and>
   Min (set (maximum_accumulate [1, 2, 3])) = 1 \<and> Max (set (maximum_accumulate [1, 2, 3])) = 3"
proof -
  have h: "compute_flow_volume [5, 6, 7] [1, 2, 3] 0 4 5 = Inr [0, 5, 6, 7, 0]"
    by code_simp
  have q: "np_linspace 0 4 5 = Inr [0, 1, 2, 3, 4]" by code_simp
  have mn: "Min (set (maximum_accumulate [1, 2, 3])) = 1"
    and mx: "Max (set (maximum_accumulate [1, 2, 3])) = 3" by simp_all
  from compute_flow_volume_boundary [OF h]
  have b: "\<exists>q. np_linspace 0 4 5 = Inr q \<and> length q = length [0, 5, 6, 7, 0 :: real] \<and>
      (\<forall>i < length [0, 5, 6, 7, 0 :: real].
         q ! i < Min (set (maximum_accumulate [1, 2, 3])) \<or>
         Max (set (maximum_accumulate [1, 2, 3])) < q ! i \<longrightarrow> [0, 5, 6, 7, 0 :: real] ! i = 0)"
    by (rule conjunct2)
  have l: "int (length [0, 5, 6, 7, 0 :: real]) = 5" by simp
  show ?thesis by (intro conjI h l b q mn mx)
qed

subsection \<open>Forced expiratory flow\<close>

lemma first_crossing_less:
  assumes "\<exists>v \<in> set volume. t \<le> v"
  shows "first_crossing volume t < length volume"
proof -
  let ?P = "\<lambda>v. v < t"
  from assms have "\<not> (\<forall>v \<in> set volume. ?P v)" by force
  then have "takeWhile ?P volume \<noteq> volume" by simp
  then have "dropWhile ?P volume \<noteq> []"
    by (metis append_Nil2 takeWhile_dropWhile_id)
  then have "0 < length (dropWhile ?P volume)" by simp
  moreover have "length (takeWhile ?P volume) + length (dropWhile ?P volume) = length volume"
    by (metis length_append takeWhile_dropWhile_id)
  ultimately show ?thesis unfolding first_crossing_def by arith
qed

lemma first_crossing_reaches:
  assumes "\<exists>v \<in> set volume. t \<le> v"
  shows "t \<le> volume ! first_crossing volume t"
proof -
  have "\<not> volume ! first_crossing volume t < t"
    using first_crossing_less [OF assms]
    unfolding first_crossing_def by (rule nth_length_takeWhile)
  then show ?thesis by simp
qed

lemma first_crossing_below:
  assumes "j < first_crossing volume t"
  shows "volume ! j < t"
proof -
  have "takeWhile (\<lambda>v. v < t) volume ! j \<in> set (takeWhile (\<lambda>v. v < t) volume)"
    using assms unfolding first_crossing_def by (intro nth_mem)
  then have "takeWhile (\<lambda>v. v < t) volume ! j < t" by (rule set_takeWhileD [THEN conjunct2])
  then show ?thesis using assms unfolding first_crossing_def by (simp add: takeWhile_nth)
qed

lemma first_crossing_mono:
  assumes "t \<le> t'"
  shows "first_crossing volume t \<le> first_crossing volume t'"
  unfolding first_crossing_def using assms by (induction volume) auto

lemma first_crossing_is_first:
  assumes "\<exists>v \<in> set volume. t \<le> v"
  shows "is_first_crossing volume t (first_crossing volume t)"
  unfolding is_first_crossing_def
  using first_crossing_less [OF assms] first_crossing_reaches [OF assms] first_crossing_below
  by auto

lemma np_argmax_threshold:
  assumes "volume \<noteq> []"
  shows "np_argmax (map (\<lambda>v. t \<le> v) volume) =
           Inr (if \<exists>v \<in> set volume. t \<le> v then first_crossing volume t else 0)"
proof -
  have "takeWhile Not (map (\<lambda>v. t \<le> v) volume) =
          map (\<lambda>v. t \<le> v) (takeWhile (\<lambda>v. v < t) volume)"
    by (simp add: takeWhile_map comp_def not_le)
  then have "length (takeWhile Not (map (\<lambda>v. t \<le> v) volume)) = first_crossing volume t"
    by (simp add: first_crossing_def)
  moreover have "True \<in> set (map (\<lambda>v. t \<le> v) volume) \<longleftrightarrow> (\<exists>v \<in> set volume. t \<le> v)"
    by auto
  ultimately show ?thesis using assms by (simp add: np_argmax_def)
qed

lemma compute_fef_thresholds:
  assumes "t25 = 0.25 * volume_max" "t50 = 0.50 * volume_max" "t75 = 0.75 * volume_max"
  shows "compute_fef flow volume volume_max =
     (if length flow \<noteq> length volume then Inl AssertionError
      else if \<not> 1 < length flow then Inl AssertionError
      else if \<not> (\<exists>v \<in> set volume. t75 \<le> v) then Inl ValueError
      else (let idx_25 = (if \<exists>v \<in> set volume. t25 \<le> v then first_crossing volume t25 else 0);
                idx_50 = (if \<exists>v \<in> set volume. t50 \<le> v then first_crossing volume t50 else 0);
                idx_75 = first_crossing volume t75
            in if \<not> (idx_25 \<le> idx_50 \<and> idx_50 \<le> idx_75 \<and> idx_75 < length flow)
               then Inl AssertionError
               else Inr (flow ! idx_25, flow ! idx_50, flow ! idx_75,
                         np_mean (slice flow idx_25 (idx_75 + 1)))))"
proof (cases "length flow = length volume \<and> 1 < length flow")
  case False
  then show ?thesis unfolding compute_fef_def by auto
next
  case True
  then have ne: "volume \<noteq> []" by auto
  have t: "True \<in> set (map (\<lambda>v. t \<le> v) volume) \<longleftrightarrow> (\<exists>v \<in> set volume. t \<le> v)" for t
    by auto
  show ?thesis
    unfolding compute_fef_def assms [symmetric] Let_def np_argmax_threshold [OF ne] t
    using True by simp
qed

lemma compute_fef_ValueError:
  "compute_fef flow volume volume_max = Inl ValueError \<longleftrightarrow>
     length flow = length volume \<and> 1 < length flow \<and> \<not> (\<exists>v \<in> set volume. 0.75 * volume_max \<le> v)"
  unfolding compute_fef_thresholds [OF refl refl refl]
  by (simp only: Let_def split: if_splits) auto

lemma sum_list_slice:
  assumes "a \<le> b" "b < length (xs :: real list)"
  shows "sum_list (slice xs a (b + 1)) = (\<Sum>i = a..b. xs ! i)"
    and "length (slice xs a (b + 1)) = b - a + 1"
proof -
  show l: "length (slice xs a (b + 1)) = b - a + 1"
    using assms by (simp add: slice_def)
  have "sum_list (slice xs a (b + 1)) = (\<Sum>i = 0..<b - a + 1. slice xs a (b + 1) ! i)"
    unfolding l [symmetric] by (rule sum_list_sum_nth)
  also have "\<dots> = (\<Sum>i = 0..<b - a + 1. xs ! (i + a))"
    using assms by (intro sum.cong) (auto simp: slice_def add.commute)
  also have "\<dots> = (\<Sum>i = 0 + a..<b - a + 1 + a. xs ! i)"
    by (rule sum.shift_bounds_nat_ivl [symmetric])
  also have "{0 + a..<b - a + 1 + a} = {a..b}" using assms by auto
  finally show "sum_list (slice xs a (b + 1)) = (\<Sum>i = a..b. xs ! i)" .
qed

lemma np_mean_slice:
  assumes "a \<le> b" "b < length xs"
  shows "np_mean (slice xs a (b + 1)) = (\<Sum>i = a..b. xs ! i) / real (b - a + 1)"
  unfolding np_mean_def sum_list_slice [OF assms] ..

lemma compute_fef_nonneg_max:
  assumes len: "length flow = length volume" and size: "1 < length flow"
    and reach: "\<exists>v \<in> set volume. 0.75 * volume_max \<le> v"
    and pos: "0 \<le> volume_max"
  shows "compute_fef flow volume volume_max =
           Inr (flow ! first_crossing volume (0.25 * volume_max),
                flow ! first_crossing volume (0.50 * volume_max),
                flow ! first_crossing volume (0.75 * volume_max),
                np_mean (slice flow (first_crossing volume (0.25 * volume_max))
                                    (first_crossing volume (0.75 * volume_max) + 1)))"
    and "first_crossing volume (0.25 * volume_max) \<le> first_crossing volume (0.50 * volume_max)"
    and "first_crossing volume (0.50 * volume_max) \<le> first_crossing volume (0.75 * volume_max)"
    and "first_crossing volume (0.75 * volume_max) < length flow"
    and "\<exists>v \<in> set volume. 0.25 * volume_max \<le> v"
    and "\<exists>v \<in> set volume. 0.50 * volume_max \<le> v"
proof -
  from reach obtain v where v: "v \<in> set volume" "0.75 * volume_max \<le> v" by blast
  have t1: "0.25 * volume_max \<le> 0.50 * volume_max" and t2: "0.50 * volume_max \<le> 0.75 * volume_max"
    using pos by simp_all
  show r25: "\<exists>v \<in> set volume. 0.25 * volume_max \<le> v" using v t1 t2 by force
  show r50: "\<exists>v \<in> set volume. 0.50 * volume_max \<le> v" using v t2 by force
  show o1: "first_crossing volume (0.25 * volume_max) \<le> first_crossing volume (0.50 * volume_max)"
    using t1 by (rule first_crossing_mono)
  show o2: "first_crossing volume (0.50 * volume_max) \<le> first_crossing volume (0.75 * volume_max)"
    using t2 by (rule first_crossing_mono)
  show o3: "first_crossing volume (0.75 * volume_max) < length flow"
    using first_crossing_less [OF reach] len by simp
  show "compute_fef flow volume volume_max =
           Inr (flow ! first_crossing volume (0.25 * volume_max),
                flow ! first_crossing volume (0.50 * volume_max),
                flow ! first_crossing volume (0.75 * volume_max),
                np_mean (slice flow (first_crossing volume (0.25 * volume_max))
                                    (first_crossing volume (0.75 * volume_max) + 1)))"
    unfolding compute_fef_thresholds [OF refl refl refl] Let_def
    using len size r25 r50 reach o1 o2 o3 by (simp only: if_True if_False simp_thms)
qed

lemmas fef_eval = compute_fef_def np_argmax_def np_mean_def slice_def

text \<open>
  C4, as amended. For flow and volume of equal length greater than 1, a non-negative
  \<open>volume_max\<close>, and at least one sample with \<open>volume \<ge> 0.75 * volume_max\<close>,
  \<open>compute_fef\<close> returns \<open>(flow[idx_25], flow[idx_50], flow[idx_75], m)\<close> where
  \<open>idx_f\<close> is the smallest index with \<open>volume[idx_f] \<ge> f * volume_max\<close> and \<open>m\<close> is
  the mean of the flow over the inclusive index range \<open>[idx_25, idx_75]\<close>.
\<close>

theorem compute_fef_first_crossings:
  assumes "length flow = length volume" and "1 < length flow"
    and "\<exists>v \<in> set volume. 0.75 * volume_max \<le> v" and "0 \<le> volume_max"
  shows "\<exists>idx_25 idx_50 idx_75.
           is_first_crossing volume (0.25 * volume_max) idx_25 \<and>
           is_first_crossing volume (0.50 * volume_max) idx_50 \<and>
           is_first_crossing volume (0.75 * volume_max) idx_75 \<and>
           compute_fef flow volume volume_max =
             Inr (flow ! idx_25, flow ! idx_50, flow ! idx_75,
                  (\<Sum>i = idx_25..idx_75. flow ! i) / real (idx_75 - idx_25 + 1))"
proof -
  let ?i25 = "first_crossing volume (0.25 * volume_max)"
  let ?i50 = "first_crossing volume (0.50 * volume_max)"
  let ?i75 = "first_crossing volume (0.75 * volume_max)"
  note fef = compute_fef_nonneg_max [OF assms]
  have "?i25 \<le> ?i75" using fef(2,3) by (rule order_trans)
  then have "np_mean (slice flow ?i25 (?i75 + 1)) =
      (\<Sum>i = ?i25..?i75. flow ! i) / real (?i75 - ?i25 + 1)"
    using fef(4) by (rule np_mean_slice)
  with fef(1) have "compute_fef flow volume volume_max =
      Inr (flow ! ?i25, flow ! ?i50, flow ! ?i75,
           (\<Sum>i = ?i25..?i75. flow ! i) / real (?i75 - ?i25 + 1))"
    by (simp only:)
  moreover have "is_first_crossing volume (0.25 * volume_max) ?i25"
    using fef(5) by (rule first_crossing_is_first)
  moreover have "is_first_crossing volume (0.50 * volume_max) ?i50"
    using fef(6) by (rule first_crossing_is_first)
  moreover have "is_first_crossing volume (0.75 * volume_max) ?i75"
    using assms(3) by (rule first_crossing_is_first)
  ultimately show ?thesis by blast
qed

text \<open>
  Volume \<open>[0,1,2,3,4]\<close> with maximum 4: the crossings are at the indices 1, 2 and 3,
  and the flow \<open>[0,2,4,6,8]\<close> gives \<open>(2, 4, 6, 4)\<close>.
\<close>

theorem compute_fef_first_crossings_witness:
  "length [0, 2, 4, 6, 8 :: real] = length [0, 1, 2, 3, 4 :: real] \<and>
   1 < length [0, 2, 4, 6, 8 :: real] \<and>
   (\<exists>v \<in> set [0, 1, 2, 3, 4 :: real]. 0.75 * 4 \<le> v) \<and> (0 :: real) \<le> 4 \<and>
   (\<exists>idx_25 idx_50 idx_75.
      is_first_crossing [0, 1, 2, 3, 4] (0.25 * 4) idx_25 \<and>
      is_first_crossing [0, 1, 2, 3, 4] (0.50 * 4) idx_50 \<and>
      is_first_crossing [0, 1, 2, 3, 4] (0.75 * 4) idx_75 \<and>
      compute_fef [0, 2, 4, 6, 8] [0, 1, 2, 3, 4] 4 =
        Inr ([0, 2, 4, 6, 8] ! idx_25, [0, 2, 4, 6, 8] ! idx_50, [0, 2, 4, 6, 8] ! idx_75,
             (\<Sum>i = idx_25..idx_75. [0, 2, 4, 6, 8] ! i) / real (idx_75 - idx_25 + 1))) \<and>
   compute_fef [0, 2, 4, 6, 8] [0, 1, 2, 3, 4] 4 = Inr (2, 4, 6, 4)"
proof -
  have h1: "length [0, 2, 4, 6, 8 :: real] = length [0, 1, 2, 3, 4 :: real]"
    and h2: "1 < length [0, 2, 4, 6, 8 :: real]"
    and h3: "\<exists>v \<in> set [0, 1, 2, 3, 4 :: real]. 0.75 * 4 \<le> v"
    and h4: "(0 :: real) \<le> 4"
    by simp_all
  have ev: "compute_fef [0, 2, 4, 6, 8] [0, 1, 2, 3, 4] 4 = Inr (2, 4, 6, 4)"
    by (simp add: fef_eval)
  show ?thesis
    by (intro conjI h1 h2 h3 h4 ev compute_fef_first_crossings [OF h1 h2 h3 h4])
qed

text \<open>
  C4 as stated fails for a negative \<open>volume_max\<close>: with \<open>volume_max = -8\<close> the
  thresholds are \<open>-2\<close>, \<open>-4\<close> and \<open>-6\<close>, the sample \<open>-6\<close> at index 0 reaches the 75%
  threshold, and \<open>compute_fef\<close> raises \<open>AssertionError\<close> instead of returning.
\<close>

theorem compute_fef_negative_max_counterexample:
  "length [1, 2, 3 :: real] = length [- 6, - 1, - 5 :: real] \<and>
   1 < length [1, 2, 3 :: real] \<and>
   (- 6 :: real) \<in> set [- 6, - 1, - 5] \<and> 0.75 * (- 8) \<le> (- 6 :: real) \<and>
   compute_fef [1, 2, 3] [- 6, - 1, - 5] (- 8) = Inl AssertionError"
  by (simp add: fef_eval)

text \<open>
  C7, as amended. For flow and volume of equal length greater than 1, a non-negative
  \<open>volume_max\<close>, and a reachable 75% threshold, the indices that \<open>compute_fef\<close>
  computes satisfy \<open>idx_25 \<le> idx_50 \<le> idx_75 < len(flow)\<close>, and its assertion does
  not fail.
\<close>

theorem compute_fef_indices_ordered:
  assumes "length flow = length volume" and "1 < length flow"
    and "\<exists>v \<in> set volume. 0.75 * volume_max \<le> v" and "0 \<le> volume_max"
  shows "\<exists>idx_25 idx_50 idx_75.
           np_argmax (map (\<lambda>v. 0.25 * volume_max \<le> v) volume) = Inr idx_25 \<and>
           np_argmax (map (\<lambda>v. 0.50 * volume_max \<le> v) volume) = Inr idx_50 \<and>
           np_argmax (map (\<lambda>v. 0.75 * volume_max \<le> v) volume) = Inr idx_75 \<and>
           idx_25 \<le> idx_50 \<and> idx_50 \<le> idx_75 \<and> idx_75 < length flow \<and>
           compute_fef flow volume volume_max \<noteq> Inl AssertionError"
proof -
  note fef = compute_fef_nonneg_max [OF assms]
  have ne: "volume \<noteq> []" using assms(1,2) by auto
  have "np_argmax (map (\<lambda>v. 0.25 * volume_max \<le> v) volume) =
          Inr (first_crossing volume (0.25 * volume_max))"
    unfolding np_argmax_threshold [OF ne] using fef(5) by (simp only: if_True)
  moreover have "np_argmax (map (\<lambda>v. 0.50 * volume_max \<le> v) volume) =
          Inr (first_crossing volume (0.50 * volume_max))"
    unfolding np_argmax_threshold [OF ne] using fef(6) by (simp only: if_True)
  moreover have "np_argmax (map (\<lambda>v. 0.75 * volume_max \<le> v) volume) =
          Inr (first_crossing volume (0.75 * volume_max))"
    unfolding np_argmax_threshold [OF ne] using assms(3) by (simp only: if_True)
  moreover have "compute_fef flow volume volume_max \<noteq> Inl AssertionError"
    unfolding fef(1) by simp
  ultimately show ?thesis using fef(2,3,4) by blast
qed

text \<open>The same curve: the indices 1, 2 and 3 are in order.\<close>

theorem compute_fef_indices_ordered_witness:
  "length [0, 2, 4, 6, 8 :: real] = length [0, 1, 2, 3, 4 :: real] \<and>
   1 < length [0, 2, 4, 6, 8 :: real] \<and>
   (\<exists>v \<in> set [0, 1, 2, 3, 4 :: real]. 0.75 * 4 \<le> v) \<and> (0 :: real) \<le> 4 \<and>
   (\<exists>idx_25 idx_50 idx_75.
      np_argmax (map (\<lambda>v. 0.25 * 4 \<le> v) [0, 1, 2, 3, 4 :: real]) = Inr idx_25 \<and>
      np_argmax (map (\<lambda>v. 0.50 * 4 \<le> v) [0, 1, 2, 3, 4 :: real]) = Inr idx_50 \<and>
      np_argmax (map (\<lambda>v. 0.75 * 4 \<le> v) [0, 1, 2, 3, 4 :: real]) = Inr idx_75 \<and>
      idx_25 \<le> idx_50 \<and> idx_50 \<le> idx_75 \<and> idx_75 < length [0, 2, 4, 6, 8 :: real] \<and>
      compute_fef [0, 2, 4, 6, 8] [0, 1, 2, 3, 4] 4 \<noteq> Inl AssertionError)"
proof -
  have h1: "length [0, 2, 4, 6, 8 :: real] = length [0, 1, 2, 3, 4 :: real]"
    and h2: "1 < length [0, 2, 4, 6, 8 :: real]"
    and h3: "\<exists>v \<in> set [0, 1, 2, 3, 4 :: real]. 0.75 * 4 \<le> v"
    and h4: "(0 :: real) \<le> 4"
    by simp_all
  show ?thesis
    by (intro conjI h1 h2 h3 h4 compute_fef_indices_ordered [OF h1 h2 h3 h4])
qed

text \<open>
  C7 as stated, for every value of \<open>volume_max\<close>, fails at \<open>volume_max = -4\<close>: the
  thresholds \<open>-1\<close>, \<open>-2\<close>, \<open>-3\<close> decrease, the first crossings of volume \<open>[-3,-1]\<close>
  are at the indices 1, 1 and 0, and the assertion fails.
\<close>

theorem compute_fef_indices_negative_max_counterexample:
  "length [0, 0 :: real] = length [- 3, - 1 :: real] \<and> 1 < length [0, 0 :: real] \<and>
   is_first_crossing [- 3, - 1] (0.25 * (- 4)) 1 \<and>
   is_first_crossing [- 3, - 1] (0.50 * (- 4)) 1 \<and>
   is_first_crossing [- 3, - 1] (0.75 * (- 4)) 0 \<and>
   compute_fef [0, 0] [- 3, - 1] (- 4) = Inl AssertionError"
  by (simp add: fef_eval is_first_crossing_def)

text \<open>
  C5, as amended. For flow and volume of equal length greater than 1,
  \<open>compute_fef\<close> raises the \<open>ValueError\<close> of insufficient data if and only if no
  element of volume is at least \<open>0.75 * volume_max\<close>; and when \<open>volume_max \<ge> 0\<close> this
  is its only failure: it then fails, producing no FEF values, if and only if no element
  reaches that threshold.
\<close>

theorem compute_fef_insufficient_data:
  assumes "length flow = length volume" and "1 < length flow"
  shows "(compute_fef flow volume volume_max = Inl ValueError \<longleftrightarrow>
            \<not> (\<exists>v \<in> set volume. 0.75 * volume_max \<le> v)) \<and>
         (0 \<le> volume_max \<longrightarrow>
            (isl (compute_fef flow volume volume_max) \<longleftrightarrow>
               \<not> (\<exists>v \<in> set volume. 0.75 * volume_max \<le> v)))"
proof
  show v: "compute_fef flow volume volume_max = Inl ValueError \<longleftrightarrow>
            \<not> (\<exists>v \<in> set volume. 0.75 * volume_max \<le> v)"
    unfolding compute_fef_ValueError using assms by (simp only: simp_thms)
  show "0 \<le> volume_max \<longrightarrow>
            (isl (compute_fef flow volume volume_max) \<longleftrightarrow>
               \<not> (\<exists>v \<in> set volume. 0.75 * volume_max \<le> v))"
  proof
    assume pos: "0 \<le> volume_max"
    show "isl (compute_fef flow volume volume_max) \<longleftrightarrow>
            \<not> (\<exists>v \<in> set volume. 0.75 * volume_max \<le> v)"
    proof (cases "\<exists>v \<in> set volume. 0.75 * volume_max \<le> v")
      case True
      have "\<not> isl (compute_fef flow volume volume_max)"
        unfolding compute_fef_nonneg_max(1) [OF assms True pos] by simp
      with True show ?thesis by (simp only: simp_thms)
    next
      case False
      with v have "compute_fef flow volume volume_max = Inl ValueError" by (simp only: simp_thms)
      then have "isl (compute_fef flow volume volume_max)" by (simp only: sum.disc)
      with False show ?thesis by (simp only: simp_thms)
    qed
  qed
qed

text \<open>Volume \<open>[1,1]\<close> against a maximum of 4: no sample reaches 3.\<close>

theorem compute_fef_insufficient_data_witness:
  "length [0, 0 :: real] = length [1, 1 :: real] \<and> 1 < length [0, 0 :: real] \<and>
   (0 :: real) \<le> 4 \<and> \<not> (\<exists>v \<in> set [1, 1 :: real]. 0.75 * 4 \<le> v) \<and>
   compute_fef [0, 0] [1, 1] 4 = Inl ValueError \<and> isl (compute_fef [0, 0] [1, 1] 4)"
proof -
  have h1: "length [0, 0 :: real] = length [1, 1 :: real]"
    and h2: "1 < length [0, 0 :: real]"
    and h3: "(0 :: real) \<le> 4"
    and n: "\<not> (\<exists>v \<in> set [1, 1 :: real]. 0.75 * 4 \<le> v)"
    by simp_all
  from compute_fef_insufficient_data [OF h1 h2, of 4] h3 n
  have "compute_fef [0, 0] [1, 1] 4 = Inl ValueError" and "isl (compute_fef [0, 0] [1, 1] 4)"
    by blast+
  then show ?thesis by (intro conjI h1 h2 h3 n)
qed

text \<open>
  C5 as stated fails for a negative \<open>volume_max\<close>: with \<open>volume_max = -2\<close> the sample
  \<open>-3/2\<close> reaches the 75% threshold \<open>-3/2\<close>, and \<open>compute_fef\<close> still fails, on its
  index assertion.
\<close>

theorem compute_fef_assertion_failure_counterexample:
  "length [0, 0 :: real] = length [- 3 / 2, - 1 :: real] \<and> 1 < length [0, 0 :: real] \<and>
   (- 3 / 2 :: real) \<in> set [- 3 / 2, - 1] \<and> 0.75 * (- 2) \<le> (- 3 / 2 :: real) \<and>
   compute_fef [0, 0] [- 3 / 2, - 1] (- 2) = Inl AssertionError \<and>
   isl (compute_fef [0, 0] [- 3 / 2, - 1] (- 2))"
  by (simp add: fef_eval)

lemma max_reaches_fef75:
  assumes "volume \<noteq> []" and "0 \<le> Max (set (volume :: real list))"
  shows "Max (set volume) \<in> set volume" and "0.75 * Max (set volume) \<le> Max (set volume)"
proof -
  show "Max (set volume) \<in> set volume" using assms(1) by (intro Max_in) simp_all
  show "0.75 * Max (set volume) \<le> Max (set volume)" using assms(2) by simp
qed

text \<open>
  When \<open>volume_max\<close> is the maximum of the volume curve, a reachable 75% threshold
  already makes it non-negative.
\<close>

lemma reachable_at_max_nonneg:
  assumes "v \<in> set volume" and "0.75 * Max (set volume) \<le> (v :: real)"
  shows "0 \<le> Max (set volume)"
proof -
  have "v \<le> Max (set volume)" using assms(1) by simp
  with assms(2) have "0.75 * Max (set volume) \<le> Max (set volume)" by (rule order_trans)
  then show ?thesis by simp
qed

text \<open>
  C9. For every non-empty volume array whose maximum is at least 0, when
  \<open>volume_max\<close> is \<open>np.max(volume)\<close>, the sample attaining the maximum satisfies
  \<open>volume \<ge> 0.75 * volume_max\<close>, so \<open>compute_fef\<close> does not raise its
  \<open>ValueError\<close>, whatever the flow.
\<close>

theorem fef75_reachable_at_max:
  assumes "volume \<noteq> []" and "0 \<le> Max (set volume)"
  shows "np_max volume = Inr (Max (set volume)) \<and>
         Max (set volume) \<in> set volume \<and>
         0.75 * Max (set volume) \<le> Max (set volume) \<and>
         compute_fef flow volume (Max (set volume)) \<noteq> Inl ValueError"
proof -
  note m = max_reaches_fef75 [OF assms]
  have "\<exists>v \<in> set volume. 0.75 * Max (set volume) \<le> v" using m by blast
  then have "compute_fef flow volume (Max (set volume)) \<noteq> Inl ValueError"
    unfolding compute_fef_ValueError by (simp only: simp_thms)
  moreover have "np_max volume = Inr (Max (set volume))"
    using assms(1) by (simp add: np_max_def)
  ultimately show ?thesis using m by blast
qed

text \<open>Volume \<open>[0,1,2,3,4]\<close>: its maximum 4 is at least 3.\<close>

theorem fef75_reachable_at_max_witness:
  "[0, 1, 2, 3, 4 :: real] \<noteq> [] \<and> 0 \<le> Max (set [0, 1, 2, 3, 4 :: real]) \<and>
   np_max [0, 1, 2, 3, 4] = Inr 4 \<and>
   compute_fef [0, 1, 1, 1, 1] [0, 1, 2, 3, 4] (Max (set [0, 1, 2, 3, 4])) \<noteq> Inl ValueError"
proof -
  have h1: "[0, 1, 2, 3, 4 :: real] \<noteq> []" and h2: "0 \<le> Max (set [0, 1, 2, 3, 4 :: real])"
    and m: "Max (set [0, 1, 2, 3, 4 :: real]) = 4"
    by simp_all
  from fef75_reachable_at_max [OF h1 h2, of "[0, 1, 1, 1, 1]"] m
  have "np_max [0, 1, 2, 3, 4] = Inr 4"
    and "compute_fef [0, 1, 1, 1, 1] [0, 1, 2, 3, 4] (Max (set [0, 1, 2, 3, 4])) \<noteq> Inl ValueError"
    by simp_all
  then show ?thesis by (intro conjI h1 h2)
qed

text \<open>
  In the pipeline the maximum is never negative: a series that \<open>trim_records\<close> has
  accepted starts with 0, so the volume curve does, whatever the scale.
\<close>

lemma row_fef_after_trim:
  assumes "trim_record r = Inr r'"
  shows "row_fef (series r') volume_scale time_scale \<noteq> Inl ValueError"
proof -
  let ?volume = "compute_volume (series r') volume_scale"
  from assms obtain xs where s: "series r' = 0 # xs"
    by (auto simp: trim_record_def Let_def split: if_splits list.splits)
  then have ne: "?volume \<noteq> []" and z: "0 \<in> set ?volume"
    by (simp_all add: compute_volume_def)
  then have pos: "0 \<le> Max (set ?volume)" by simp
  note m = max_reaches_fef75 [OF ne pos]
  have "\<exists>v \<in> set ?volume. 0.75 * Max (set ?volume) \<le> v" using m by blast
  then have "compute_fef (compute_flow ?volume time_scale) ?volume (Max (set ?volume)) \<noteq> Inl ValueError"
    unfolding compute_fef_ValueError by (simp only: simp_thms)
  then show ?thesis using ne by (simp add: row_fef_def np_max_def Let_def)
qed

end
